theory Spec2Isabelle
  imports Complex_Main
begin

unbundle bit_operations_syntax

section \<open>Python primitives used by the program\<close>

text \<open>
  The program is a single Python module. Its floats are idealised as real numbers
  (every midpoint the geohash encoder computes at precision 8 is a dyadic multiple of
  180 that a double holds exactly, so the encoder's comparisons are the same on both);
  its ints are unbounded integers; its strings are character lists. A raise is a value
  \<open>Inl e\<close> of the result type.
\<close>

datatype error = IndexError | ValueError

text \<open>Sequencing of fallible steps: the first raise ends the computation.\<close>

definition bind_e :: "error + 'a \<Rightarrow> ('a \<Rightarrow> error + 'b) \<Rightarrow> error + 'b" where
  "bind_e m f = (case m of Inl e \<Rightarrow> Inl e | Inr x \<Rightarrow> f x)"

text \<open>
  Subscription \<^verbatim>\<open>xs[i]\<close> of a sequence of length \<open>n\<close>: positions \<open>0 .. n - 1\<close> read
  from the front, positions \<open>-n .. -1\<close> from the back, anything else is an IndexError.
\<close>

definition getitem :: "'a list \<Rightarrow> int \<Rightarrow> error + 'a" where
  "getitem xs i =
     (if 0 \<le> i \<and> i < int (length xs) then Inr (xs ! nat i)
      else if i < 0 \<and> - int (length xs) \<le> i then Inr (xs ! nat (int (length xs) + i))
      else Inl IndexError)"

text \<open>\<^verbatim>\<open>s.find(c)\<close> for a one-character \<open>c\<close>: the first position, or -1.\<close>

fun str_find :: "string \<Rightarrow> char \<Rightarrow> int" where
  "str_find [] c = - 1"
| "str_find (x # xs) c =
     (if x = c then 0 else (let r = str_find xs c in if r < 0 then - 1 else r + 1))"

text \<open>\<^verbatim>\<open>math.sqrt\<close> raises ValueError below zero.\<close>

definition py_sqrt :: "real \<Rightarrow> error + real" where
  "py_sqrt x = (if x < 0 then Inl ValueError else Inr (sqrt x))"

definition radians :: "real \<Rightarrow> real" where
  "radians x = x * pi / 180"

text \<open>\<^verbatim>\<open>math.atan2(y, x)\<close>: the angle of the point \<open>(x, y)\<close> in \<open>(-pi, pi]\<close>.\<close>

definition atan2 :: "real \<Rightarrow> real \<Rightarrow> real" where
  "atan2 y x =
     (if 0 < x then arctan (y / x)
      else if x < 0 then (if 0 \<le> y then arctan (y / x) + pi else arctan (y / x) - pi)
      else if 0 < y then pi / 2
      else if y < 0 then - (pi / 2)
      else 0)"

section \<open>Configuration\<close>

definition R_EARTH :: real where "R_EARTH = 6371000"
definition GEO_PREC :: int where "GEO_PREC = 8"
definition TIME_WINDOW :: real where "TIME_WINDOW = 60"
definition RELAX_RATIO :: real where "RELAX_RATIO = 12 / 10"

section \<open>Geohash codec\<close>

definition BASE32 :: string where
  "BASE32 = ''0123456789bcdefghjkmnpqrstuvwxyz''"

datatype direction = Right | Left | Top | Bottom

text \<open>The tables \<^verbatim>\<open>__NEIGHBORS[d]['even']\<close> and \<^verbatim>\<open>__BORDERS[d]['even']\<close>.\<close>

fun NEIGHBORS :: "direction \<Rightarrow> string" where
  "NEIGHBORS Right = ''bc01fg45238967deuvhjyznpkmstqrwx''"
| "NEIGHBORS Left = ''238967debc01fg45kmstqrwxuvhjyznp''"
| "NEIGHBORS Top = ''p0r21436x8zb9dcf5h7kjnmqesgutwvy''"
| "NEIGHBORS Bottom = ''14365h7k9dcfesgujnmqp0r2twvyx8zb''"

fun BORDERS :: "direction \<Rightarrow> string" where
  "BORDERS Right = ''bcfguvyz''"
| "BORDERS Left = ''0145hjnp''"
| "BORDERS Top = ''prxz''"
| "BORDERS Bottom = ''028b''"

text \<open>
  The table \<^verbatim>\<open>_neighbor\<close> selects for a direction: for a code of odd length the
  tables of the crossed axis, otherwise the direction's own.
\<close>

fun crossed :: "direction \<Rightarrow> direction" where
  "crossed Right = Top"
| "crossed Left = Bottom"
| "crossed Top = Right"
| "crossed Bottom = Left"

definition direction_map :: "bool \<Rightarrow> direction \<Rightarrow> string" where
  "direction_map odd_len d = (if odd_len then NEIGHBORS (crossed d) else NEIGHBORS d)"

definition border_map :: "bool \<Rightarrow> direction \<Rightarrow> string" where
  "border_map odd_len d = (if odd_len then BORDERS (crossed d) else BORDERS d)"

function neighbor :: "string \<Rightarrow> direction \<Rightarrow> error + string" where
  "neighbor hashcode d =
     (if hashcode = [] then Inr []
      else
        let lastc = last hashcode;
            odd_len = (length hashcode mod 2 \<noteq> 0)
        in bind_e (if lastc \<in> set (border_map odd_len d)
                   then neighbor (butlast hashcode) d
                   else Inr (butlast hashcode))
             (\<lambda>parent.
                let idx = str_find BASE32 lastc
                in bind_e (getitem BASE32 idx)
                     (\<lambda>c. bind_e (getitem BASE32 (str_find (direction_map odd_len d) c))
                        (\<lambda>c'. Inr (parent @ [c'])))))"
  by pat_completeness auto
termination
  by (relation "measure (\<lambda>(h, d). length h)") auto

text \<open>
  \<^verbatim>\<open>neighbors\<close> returns a Python set; a set is modelled as a list without repetitions,
  in some order (Python leaves the iteration order of a set open, and nothing below
  depends on it).
\<close>

definition neighbors :: "string \<Rightarrow> error + string list" where
  "neighbors gh =
     bind_e (neighbor gh Top) (\<lambda>n.
     bind_e (neighbor gh Bottom) (\<lambda>s.
     bind_e (neighbor gh Right) (\<lambda>e.
     bind_e (neighbor gh Left) (\<lambda>w.
     bind_e (neighbor n Right) (\<lambda>ne.
     bind_e (neighbor n Left) (\<lambda>nw.
     bind_e (neighbor s Right) (\<lambda>se.
     bind_e (neighbor s Left) (\<lambda>sw.
       Inr (remdups [n, s, e, w, ne, nw, se, sw])))))))))"

text \<open>
  The local variables of the loop of \<^verbatim>\<open>encode_geohash\<close>; \<^verbatim>\<open>bit\<close> and \<^verbatim>\<open>even\<close>
  are the fields \<open>bit_idx\<close> and \<open>even_flag\<close>.
\<close>

record enc_state =
  lat_interval :: "real \<times> real"
  lon_interval :: "real \<times> real"
  geohash :: string
  bit_idx :: int
  ch :: int
  even_flag :: bool

definition bits :: "int list" where
  "bits = [16, 8, 4, 2, 1]"

text \<open>The \<^verbatim>\<open>if even: ... else: ...\<close> of the loop body: one bisection step.\<close>

definition bisect :: "real \<Rightarrow> real \<Rightarrow> enc_state \<Rightarrow> error + enc_state" where
  "bisect lat lon s =
     (if even_flag s then
        (let mid = (fst (lon_interval s) + snd (lon_interval s)) / 2
         in if lon > mid
            then bind_e (getitem bits (bit_idx s))
                   (\<lambda>b. Inr (s\<lparr>ch := ch s OR b, lon_interval := (mid, snd (lon_interval s))\<rparr>))
            else Inr (s\<lparr>lon_interval := (fst (lon_interval s), mid)\<rparr>))
      else
        (let mid = (fst (lat_interval s) + snd (lat_interval s)) / 2
         in if lat > mid
            then bind_e (getitem bits (bit_idx s))
                   (\<lambda>b. Inr (s\<lparr>ch := ch s OR b, lat_interval := (mid, snd (lat_interval s))\<rparr>))
            else Inr (s\<lparr>lat_interval := (fst (lat_interval s), mid)\<rparr>)))"

function encode_loop :: "real \<Rightarrow> real \<Rightarrow> int \<Rightarrow> enc_state \<Rightarrow> error + string" where
  "encode_loop lat lon precision s =
     (if int (length (geohash s)) < precision then
        (case bisect lat lon s of
           Inl e \<Rightarrow> Inl e
         | Inr s1 \<Rightarrow>
             (let s2 = s1\<lparr>even_flag := \<not> even_flag s1\<rparr>
              in if bit_idx s2 < 4 then encode_loop lat lon precision (s2\<lparr>bit_idx := bit_idx s2 + 1\<rparr>)
                 else (case getitem BASE32 (ch s2) of
                         Inl e \<Rightarrow> Inl e
                       | Inr c \<Rightarrow>
                           encode_loop lat lon precision
                             (s2\<lparr>geohash := geohash s2 @ [c], bit_idx := 0, ch := 0\<rparr>))))
      else Inr (geohash s))"
  by pat_completeness auto


lemma bisect_keeps:
  "bisect lat lon s = Inr s1 \<Longrightarrow>
     geohash s1 = geohash s \<and> bit_idx s1 = bit_idx s \<and> even_flag s1 = even_flag s"
  by (auto simp: bisect_def bind_e_def Let_def split: if_splits sum.splits)

termination encode_loop
  by (relation "measures [\<lambda>(lat, lon, p, s). nat (p - int (length (geohash s))),
                          \<lambda>(lat, lon, p, s). nat (4 - bit_idx s)]")
     (auto dest!: bisect_keeps)

definition encode_geohash :: "real \<Rightarrow> real \<Rightarrow> int \<Rightarrow> error + string" where
  "encode_geohash lat lon precision =
     encode_loop lat lon precision
       \<lparr>lat_interval = (- 90, 90), lon_interval = (- 180, 180),
        geohash = [], bit_idx = 0, ch = 0, even_flag = True\<rparr>"

section \<open>Distances and the filter cascade\<close>

definition haversine :: "real \<Rightarrow> real \<Rightarrow> real \<Rightarrow> real \<Rightarrow> error + real" where
  "haversine lat1 lon1 lat2 lon2 =
     (let phi1 = radians lat1; phi2 = radians lat2;
          dphi = radians (lat2 - lat1);
          dlambda = radians (lon2 - lon1);
          a = (sin (dphi / 2))\<^sup>2 + cos phi1 * cos phi2 * (sin (dlambda / 2))\<^sup>2
      in bind_e (py_sqrt a) (\<lambda>sa.
         bind_e (py_sqrt (1 - a)) (\<lambda>sb.
           Inr (2 * R_EARTH * atan2 sa sb))))"

definition equirectangular_m :: "real \<Rightarrow> real \<Rightarrow> real \<Rightarrow> real \<Rightarrow> error + real" where
  "equirectangular_m lat1 lon1 lat2 lon2 =
     (let x = radians (lon2 - lon1) * cos (radians ((lat1 + lat2) / 2));
          y = radians (lat2 - lat1)
      in bind_e (py_sqrt (x * x + y * y)) (\<lambda>r. Inr (R_EARTH * r)))"

definition bbox_pass :: "real \<Rightarrow> real \<Rightarrow> real \<Rightarrow> real \<Rightarrow> real \<Rightarrow> bool" where
  "bbox_pass lat1 lon1 lat2 lon2 thresh_m =
     (let deg_per_m = 180 / pi / R_EARTH;
          dlat_max = thresh_m * deg_per_m;
          dlon_max = dlat_max / max (2 / 10) (cos (radians lat1))
      in \<bar>lat1 - lat2\<bar> \<le> dlat_max \<and> \<bar>lon1 - lon2\<bar> \<le> dlon_max)"

definition near_with_stages ::
  "real \<Rightarrow> real \<Rightarrow> real \<Rightarrow> real \<Rightarrow> real \<Rightarrow> real \<Rightarrow> error + bool" where
  "near_with_stages lat1 lon1 lat2 lon2 thresh_m relax_ratio =
     (if \<not> bbox_pass lat1 lon1 lat2 lon2 thresh_m then Inr False
      else bind_e (equirectangular_m lat1 lon1 lat2 lon2) (\<lambda>e.
             if e > thresh_m * relax_ratio then Inr False
             else bind_e (haversine lat1 lon1 lat2 lon2) (\<lambda>d. Inr (d \<le> thresh_m))))"

section \<open>Users and the geohash index\<close>

record User =
  user_id :: string
  location_histry :: "(real \<times> real) list"
  last_ts :: real
  last_gh :: "string option"

definition User_init :: "string \<Rightarrow> User" where
  "User_init uid = \<lparr>user_id = uid, location_histry = [], last_ts = 0, last_gh = None\<rparr>"

text \<open>\<^verbatim>\<open>deque(maxlen=n).append(x)\<close>: a full deque drops its oldest element.\<close>

definition deque_append :: "nat \<Rightarrow> 'a list \<Rightarrow> 'a \<Rightarrow> 'a list" where
  "deque_append maxlen xs x = (if length xs \<ge> maxlen then tl xs @ [x] else xs @ [x])"

text \<open>The parameter \<open>clock\<close> is what \<^verbatim>\<open>time.time()\<close> returns when it is called.\<close>

definition add_location :: "User \<Rightarrow> real \<Rightarrow> real \<Rightarrow> real option \<Rightarrow> real \<Rightarrow> User" where
  "add_location u lat lon ts clock =
     (let ts' = (case ts of None \<Rightarrow> clock | Some t \<Rightarrow> t)
      in u\<lparr>location_histry := deque_append 20 (location_histry u) (lat, lon),
           last_ts := ts'\<rparr>)"

definition latest_location :: "User \<Rightarrow> (real \<times> real) option" where
  "latest_location u =
     (if location_histry u \<noteq> [] then Some (last (location_histry u)) else None)"

text \<open>
  The shared state: the dictionary \<^verbatim>\<open>users\<close> and the \<^verbatim>\<open>defaultdict(set)\<close>
  \<^verbatim>\<open>geo_index\<close>. A set of user ids is a list without repetitions.
\<close>

record state =
  users :: "string \<rightharpoonup> User"
  geo_index :: "string \<rightharpoonup> string list"

definition init_state :: state where
  "init_state = \<lparr>users = Map.empty, geo_index = Map.empty\<rparr>"

text \<open>
  \<^verbatim>\<open>geo_index[k]\<close> on the defaultdict inserts an empty set for a missing key;
  \<^verbatim>\<open>geo_index.get(k, set())\<close> does not.
\<close>

definition index_getitem ::
  "(string \<rightharpoonup> string list) \<Rightarrow> string \<Rightarrow> string list \<times> (string \<rightharpoonup> string list)" where
  "index_getitem idx k = (case idx k of None \<Rightarrow> ([], idx(k \<mapsto> [])) | Some b \<Rightarrow> (b, idx))"

definition index_get :: "state \<Rightarrow> string \<Rightarrow> string list \<times> state" where
  "index_get s k = (case geo_index s k of None \<Rightarrow> ([], s) | Some b \<Rightarrow> (b, s))"

definition upsert_user ::
  "state \<Rightarrow> string \<Rightarrow> real \<Rightarrow> real \<Rightarrow> real option \<Rightarrow> real \<Rightarrow> error + state" where
  "upsert_user s uid lat lon ts clock =
     (let u = (case users s uid of None \<Rightarrow> User_init uid | Some u0 \<Rightarrow> u0);
          idx1 = (case last_gh u of
                    None \<Rightarrow> geo_index s
                  | Some g \<Rightarrow> (let (b, idx) = index_getitem (geo_index s) g
                              in idx(g \<mapsto> removeAll uid b)));
          u1 = add_location u lat lon (Some (case ts of None \<Rightarrow> clock | Some t \<Rightarrow> t)) clock
      in bind_e (encode_geohash lat lon GEO_PREC) (\<lambda>gh.
           let u2 = u1\<lparr>last_gh := Some gh\<rparr>;
               (b, idx2) = index_getitem idx1 gh
           in Inr \<lparr>users = (users s)(uid \<mapsto> u2),
                   geo_index = idx2(gh \<mapsto> List.insert uid b)\<rparr>))"

text \<open>A finite sequence of calls \<^verbatim>\<open>upsert_user(users, uid, lat, lon, ts)\<close>, each with its clock.\<close>

type_synonym call = "string \<times> real \<times> real \<times> real option \<times> real"

fun run_upserts :: "state \<Rightarrow> call list \<Rightarrow> error + state" where
  "run_upserts s [] = Inr s"
| "run_upserts s ((uid, lat, lon, ts, clock) # cs) =
     bind_e (upsert_user s uid lat lon ts clock) (\<lambda>s'. run_upserts s' cs)"

section \<open>The proximity query\<close>

text \<open>The loop \<^verbatim>\<open>for h in cand_hashes: candidates |= geo_index.get(h, set())\<close>.\<close>

fun collect_candidates :: "state \<Rightarrow> string list \<Rightarrow> string list \<Rightarrow> string list \<times> state" where
  "collect_candidates s [] candidates = (candidates, s)"
| "collect_candidates s (h # hs) candidates =
     (let (b, s') = index_get s h
      in collect_candidates s' hs (List.union candidates b))"

text \<open>The loop \<^verbatim>\<open>for vid in candidates: ...\<close> with its accumulator \<^verbatim>\<open>hits\<close>.\<close>

fun scan_candidates ::
  "(string \<rightharpoonup> User) \<Rightarrow> string \<Rightarrow> real \<Rightarrow> real \<Rightarrow> real \<Rightarrow> real \<Rightarrow> real \<Rightarrow>
   string list \<Rightarrow> (string \<times> real) list \<Rightarrow> error + (string \<times> real) list" where
  "scan_candidates us uid lat1 lon1 threshold time_window now [] hits = Inr hits"
| "scan_candidates us uid lat1 lon1 threshold time_window now (vid # rest) hits =
     (if vid = uid then scan_candidates us uid lat1 lon1 threshold time_window now rest hits
      else case us vid of
        None \<Rightarrow> scan_candidates us uid lat1 lon1 threshold time_window now rest hits
      | Some v \<Rightarrow>
          (case latest_location v of
             None \<Rightarrow> scan_candidates us uid lat1 lon1 threshold time_window now rest hits
           | Some (lat2, lon2) \<Rightarrow>
               if now - last_ts v > time_window
               then scan_candidates us uid lat1 lon1 threshold time_window now rest hits
               else
                 (case near_with_stages lat1 lon1 lat2 lon2 threshold RELAX_RATIO of
                    Inl e \<Rightarrow> Inl e
                  | Inr False \<Rightarrow>
                      scan_candidates us uid lat1 lon1 threshold time_window now rest hits
                  | Inr True \<Rightarrow>
                      (case haversine lat1 lon1 lat2 lon2 of
                         Inl e \<Rightarrow> Inl e
                       | Inr d \<Rightarrow>
                           scan_candidates us uid lat1 lon1 threshold time_window now rest
                             (hits @ [(vid, d)])))))"

text \<open>
  \<^verbatim>\<open>check_proximity_geohash\<close> returns the hits (or raises) and leaves a state behind;
  \<open>now\<close> is the value of \<^verbatim>\<open>time.time()\<close> at its first line.
\<close>

definition check_proximity_geohash ::
  "state \<Rightarrow> string \<Rightarrow> real \<Rightarrow> real \<Rightarrow> real \<Rightarrow> (error + (string \<times> real) list) \<times> state" where
  "check_proximity_geohash s uid threshold time_window now =
     (case users s uid of
        None \<Rightarrow> (Inr [], s)
      | Some u \<Rightarrow>
          (case latest_location u of
             None \<Rightarrow> (Inr [], s)
           | Some (lat1, lon1) \<Rightarrow>
               (case (case last_gh u of
                        None \<Rightarrow> encode_geohash lat1 lon1 GEO_PREC
                      | Some g \<Rightarrow> if g \<noteq> [] then Inr g
                                  else encode_geohash lat1 lon1 GEO_PREC) of
                  Inl e \<Rightarrow> (Inl e, s)
                | Inr gh \<Rightarrow>
                    (case neighbors gh of
                       Inl e \<Rightarrow> (Inl e, s)
                     | Inr ns \<Rightarrow>
                         (let cand_hashes = List.union [gh] ns;
                              (candidates, s') = collect_candidates s cand_hashes []
                          in (scan_candidates (users s') uid lat1 lon1 threshold time_window
                                now candidates [], s'))))))"


section \<open>Auxiliary notions for the proofs\<close>

text \<open>The opposite direction, and what the tables must satisfy at one character.\<close>

fun opp :: "direction \<Rightarrow> direction" where
  "opp Right = Left" | "opp Left = Right" | "opp Top = Bottom" | "opp Bottom = Top"

definition char_ok :: "bool \<Rightarrow> direction \<Rightarrow> char \<Rightarrow> bool" where
  "char_ok p d c =
     (getitem BASE32 (str_find BASE32 c) = Inr c \<and>
      (case getitem BASE32 (str_find (direction_map p d) c) of
         Inl e \<Rightarrow> False
       | Inr c' \<Rightarrow> c' \<in> set BASE32 \<and>
                  getitem BASE32 (str_find (direction_map p (opp d)) c') = Inr c \<and>
                  (c' \<in> set (border_map p (opp d)) \<longleftrightarrow> c \<in> set (border_map p d))))"


text \<open>
  The set the index holds for a bucket code; a code that is not a key of the
  defaultdict stands for the empty set.
\<close>

definition bucket :: "(string \<rightharpoonup> string list) \<Rightarrow> string \<Rightarrow> string set" where
  "bucket idx c = (case idx c of None \<Rightarrow> {} | Some b \<Rightarrow> set b)"

text \<open>The index and the users' \<^verbatim>\<open>last_gh\<close> fields describe the same occupancy.\<close>

definition index_consistent :: "state \<Rightarrow> bool" where
  "index_consistent s \<longleftrightarrow>
     (\<forall>a c. a \<in> bucket (geo_index s) c \<longleftrightarrow> (\<exists>u. users s a = Some u \<and> last_gh u = Some c))"

text \<open>
  A state used to run the operations on: carol, bob and alice have each reported the
  position \<open>(0, 0)\<close>, carol at time 0 and the others at time 100.
\<close>

definition example_state :: state where
  "example_state =
     \<lparr>users = [''carol'' \<mapsto> \<lparr>user_id = ''carol'', location_histry = [(0, 0)],
                              last_ts = 0, last_gh = Some ''7zzzzzzz''\<rparr>,
               ''bob'' \<mapsto> \<lparr>user_id = ''bob'', location_histry = [(0, 0)],
                            last_ts = 100, last_gh = Some ''7zzzzzzz''\<rparr>,
               ''alice'' \<mapsto> \<lparr>user_id = ''alice'', location_histry = [(0, 0)],
                              last_ts = 100, last_gh = Some ''7zzzzzzz''\<rparr>],
      geo_index = [''7zzzzzzz'' \<mapsto> [''alice'', ''bob'', ''carol'']]\<rparr>"


declare neighbor.simps [simp del]
declare encode_loop.simps [simp del]

section \<open>The geohash codec\<close>

subsection \<open>Neighbours\<close>

lemma char_ok_table:
  "list_all (\<lambda>c. list_all (\<lambda>p. list_all (\<lambda>d. char_ok p d c) [Right, Left, Top, Bottom])
                    [True, False]) BASE32"
  by code_simp

lemma char_ok_all: "c \<in> set BASE32 \<Longrightarrow> char_ok p d c"
  using char_ok_table by (cases p; cases d) (auto simp: list_all_iff)

lemma neighbor_Nil: "neighbor [] d = Inr []"
  by (simp add: neighbor.simps)

lemma neighbor_snoc:
  "neighbor (h @ [c]) d =
     bind_e (if c \<in> set (border_map (Suc (length h) mod 2 \<noteq> 0) d) then neighbor h d else Inr h)
       (\<lambda>parent. bind_e (getitem BASE32 (str_find BASE32 c))
          (\<lambda>c0. bind_e (getitem BASE32 (str_find (direction_map (Suc (length h) mod 2 \<noteq> 0) d) c0))
             (\<lambda>c'. Inr (parent @ [c']))))"
  by (subst neighbor.simps) (simp add: Let_def)

lemma neighbor_round:
  "set h \<subseteq> set BASE32 \<Longrightarrow>
     \<exists>r. neighbor h d = Inr r \<and> length r = length h \<and> set r \<subseteq> set BASE32 \<and>
         neighbor r (opp d) = Inr h"
proof (induction h rule: rev_induct)
  case Nil
  then show ?case by (simp add: neighbor_Nil)
next
  case (snoc c h)
  let ?p = "Suc (length h) mod 2 \<noteq> 0"
  from snoc.prems have cin: "c \<in> set BASE32" and hin: "set h \<subseteq> set BASE32" by auto
  from char_ok_all [OF cin, of ?p d] obtain c' where
    c0: "getitem BASE32 (str_find BASE32 c) = Inr c" and
    c1: "getitem BASE32 (str_find (direction_map ?p d) c) = Inr c'" and
    c2: "c' \<in> set BASE32" and
    c3: "getitem BASE32 (str_find (direction_map ?p (opp d)) c') = Inr c" and
    c4: "c' \<in> set (border_map ?p (opp d)) \<longleftrightarrow> c \<in> set (border_map ?p d)"
    by (auto simp: char_ok_def split: sum.splits)
  from char_ok_all [OF c2, of ?p "opp d"] have
    c5: "getitem BASE32 (str_find BASE32 c') = Inr c'"
    by (simp add: char_ok_def)
  from snoc.IH [OF hin] obtain r where
    r1: "neighbor h d = Inr r" and r2: "length r = length h" and
    r3: "set r \<subseteq> set BASE32" and r4: "neighbor r (opp d) = Inr h"
    by blast
  show ?case
  proof (cases "c \<in> set (border_map ?p d)")
    case True
    have "neighbor (h @ [c]) d = Inr (r @ [c'])"
      using True r1 c0 c1 by (simp add: neighbor_snoc bind_e_def)
    moreover have "neighbor (r @ [c']) (opp d) = Inr (h @ [c])"
      using True c4 r2 r4 c5 c3 by (simp add: neighbor_snoc bind_e_def)
    ultimately show ?thesis using r2 r3 c2 by simp
  next
    case False
    have "neighbor (h @ [c]) d = Inr (h @ [c'])"
      using False c0 c1 by (simp add: neighbor_snoc bind_e_def)
    moreover have "neighbor (h @ [c']) (opp d) = Inr (h @ [c])"
      using False c4 c5 c3 by (simp add: neighbor_snoc bind_e_def)
    ultimately show ?thesis using hin c2 by simp
  qed
qed


text \<open>
  C9. For every geohash code \<open>c\<close> (a string over the base-32 alphabet), the left
  neighbour of the right neighbour of \<open>c\<close> is \<open>c\<close>, and the bottom neighbour of the
  top neighbour of \<open>c\<close> is \<open>c\<close>. The code wraps around at the antimeridian and at the
  poles, so the round trip holds there as well.
\<close>

theorem neighbor_symmetry:
  "set c \<subseteq> set BASE32 \<Longrightarrow>
     bind_e (neighbor c Right) (\<lambda>r. neighbor r Left) = Inr c \<and>
     bind_e (neighbor c Top) (\<lambda>t. neighbor t Bottom) = Inr c"
  using neighbor_round [of c Right] neighbor_round [of c Top]
  by (auto simp: bind_e_def)

theorem neighbor_symmetry_witness:
  "set ''xn76urxz'' \<subseteq> set BASE32 \<and>
   bind_e (neighbor ''xn76urxz'' Right) (\<lambda>r. neighbor r Left) = Inr ''xn76urxz'' \<and>
   bind_e (neighbor ''xn76urxz'' Top) (\<lambda>t. neighbor t Bottom) = Inr ''xn76urxz''"
proof -
  have h: "set ''xn76urxz'' \<subseteq> set BASE32" by (simp add: BASE32_def)
  show ?thesis using h neighbor_symmetry [OF h] by simp
qed


subsection \<open>Encoding\<close>

lemma getitem_bits:
  "0 \<le> i \<Longrightarrow> i \<le> 4 \<Longrightarrow> \<exists>b. getitem bits i = Inr b \<and> 0 \<le> b \<and> b < 32"
proof -
  assume "0 \<le> i" "i \<le> 4"
  then have "i = 0 \<or> i = 1 \<or> i = 2 \<or> i = 3 \<or> i = 4" by arith
  then show ?thesis by (auto simp: getitem_def bits_def)
qed

lemma bisect_ok:
  assumes "0 \<le> bit_idx s" "bit_idx s \<le> 4" "0 \<le> ch s" "ch s < 32"
  shows "\<exists>s1. bisect lat lon s = Inr s1 \<and> 0 \<le> ch s1 \<and> ch s1 < 32"
proof -
  from getitem_bits [OF assms(1,2)] obtain b where
    b: "getitem bits (bit_idx s) = Inr b" "0 \<le> b" "b < 32" by blast
  have "ch s OR b < 2 ^ 5" using assms(3,4) b by (intro OR_upper) auto
  then show ?thesis using b assms(3,4) by (auto simp: bisect_def bind_e_def Let_def)
qed

lemma getitem_BASE32: "0 \<le> i \<Longrightarrow> i < 32 \<Longrightarrow> \<exists>c. getitem BASE32 i = Inr c"
  by (simp add: getitem_def BASE32_def)

lemma encode_loop_length:
  "0 \<le> bit_idx s \<Longrightarrow> bit_idx s \<le> 4 \<Longrightarrow> 0 \<le> ch s \<Longrightarrow> ch s < 32 \<Longrightarrow>
     \<exists>g. encode_loop lat lon p s = Inr g \<and> int (length g) = max (int (length (geohash s))) p"
proof (induction lat lon p s rule: encode_loop.induct)
  case (1 lat lon p s)
  show ?case
  proof (cases "int (length (geohash s)) < p")
    case False
    then show ?thesis by (subst encode_loop.simps) simp
  next
    case True
    from bisect_ok [OF "1.prems"] obtain s1 where
      s1: "bisect lat lon s = Inr s1" "0 \<le> ch s1" "ch s1 < 32" by blast
    from bisect_keeps [OF s1(1)] have k: "geohash s1 = geohash s" "bit_idx s1 = bit_idx s" by auto
    let ?s2 = "s1\<lparr>even_flag := \<not> even_flag s1\<rparr>"
    show ?thesis
    proof (cases "bit_idx s < 4")
      case lt: True
      have "\<exists>g. encode_loop lat lon p (?s2\<lparr>bit_idx := bit_idx ?s2 + 1\<rparr>) = Inr g \<and>
              int (length g) = max (int (length (geohash (?s2\<lparr>bit_idx := bit_idx ?s2 + 1\<rparr>)))) p"
        using "1.prems" s1 k lt True
        by (intro "1.IH"(1) [OF True s1(1)]) auto
      then show ?thesis using True s1 k lt
        by (subst encode_loop.simps) (simp add: Let_def)
    next
      case ge: False
      from getitem_BASE32 [OF s1(2,3)] obtain c where c: "getitem BASE32 (ch s1) = Inr c" by blast
      have "\<exists>g. encode_loop lat lon p (?s2\<lparr>geohash := geohash ?s2 @ [c], bit_idx := 0, ch := 0\<rparr>) = Inr g \<and>
              int (length g) = max (int (length (geohash (?s2\<lparr>geohash := geohash ?s2 @ [c], bit_idx := 0, ch := 0\<rparr>)))) p"
        using "1.prems" s1 k ge True c
        by (intro "1.IH"(2) [OF True s1(1)]) auto
      then show ?thesis using True s1 k ge c
        by (subst encode_loop.simps) (auto simp add: Let_def)
    qed
  qed
qed

lemma encode_geohash_returns:
  "\<exists>code. encode_geohash lat lon p = Inr code \<and> int (length code) = max 0 p"
  using encode_loop_length
    [of "\<lparr>lat_interval = (- 90, 90), lon_interval = (- 180, 180),
         geohash = [], bit_idx = 0, ch = 0, even_flag = True\<rparr>" lat lon p]
  by (simp add: encode_geohash_def)


text \<open>
  C8. For every latitude, longitude and positive precision, \<^verbatim>\<open>encode_geohash\<close>
  returns exactly one code (it is a function of its arguments, reads no state and does
  not raise), and the length of that code is the precision.
\<close>

theorem encode_length:
  "0 < precision \<Longrightarrow>
     \<exists>!code. encode_geohash lat lon precision = Inr code \<and> int (length code) = precision"
  using encode_geohash_returns [of lat lon precision] by auto


theorem encode_length_witness:
  "0 < (8::int) \<and>
   (\<exists>!code. encode_geohash (35681236 / 1000000) (139767125 / 1000000) 8 = Inr code \<and>
            int (length code) = 8)"
  using encode_length [of 8 "35681236 / 1000000" "139767125 / 1000000"] by simp


section \<open>Upserts and the index\<close>

lemmas encode_eval =
  encode_geohash_def encode_loop.simps bisect_def getitem_def bits_def BASE32_def bind_e_def

lemma upsert_returns: "\<exists>s'. upsert_user s uid lat lon ts clock = Inr s'"
proof -
  obtain gh where "encode_geohash lat lon GEO_PREC = Inr gh"
    using encode_geohash_returns by blast
  then show ?thesis
    by (simp add: upsert_user_def bind_e_def Let_def split: prod.splits)
qed

text \<open>
  C1 (as amended). \<^verbatim>\<open>upsert_user\<close> validates nothing: for every latitude and
  longitude, inside or outside \<open>[-90, 90]\<close> and \<open>[-180, 180]\<close>, the call returns a new
  state and does not raise.
\<close>

theorem upsert_never_rejects: "\<exists>s'. upsert_user s uid lat lon ts clock = Inr s'"
  by (rule upsert_returns)

text \<open>The claim as stated fails: latitude 91 is out of range and is accepted.\<close>

theorem upsert_out_of_range_accepted:
  "(90::real) < 91 \<and> \<not> isl (upsert_user init_state ''alice'' 91 0 None 0)"
  by (simp add: upsert_user_def init_state_def encode_eval GEO_PREC_def
     User_init_def add_location_def deque_append_def index_getitem_def Let_def)

lemma bucket_getitem:
  "index_getitem idx k = (b, idx') \<Longrightarrow> set b = bucket idx k \<and> bucket idx' c = bucket idx c"
  by (auto simp: index_getitem_def bucket_def split: option.splits if_splits)

lemma bucket_upd: "bucket (idx(k \<mapsto> b)) c = (if c = k then set b else bucket idx c)"
  by (simp add: bucket_def)

lemma upsert_effect:
  assumes "upsert_user s uid lat lon ts clock = Inr s'"
  shows "\<exists>gh u2. users s' = (users s)(uid \<mapsto> u2) \<and> last_gh u2 = Some gh \<and>
           (\<forall>c. bucket (geo_index s') c =
              (if c = gh then insert uid (bucket (geo_index s) c)
               else if (\<exists>u. users s uid = Some u \<and> last_gh u = Some c)
                    then bucket (geo_index s) c - {uid} else bucket (geo_index s) c))"
proof -
  obtain gh where gh: "encode_geohash lat lon GEO_PREC = Inr gh"
    using encode_geohash_returns by blast
  define u where "u = (case users s uid of None \<Rightarrow> User_init uid | Some u0 \<Rightarrow> u0)"
  define idx1 where "idx1 = (case last_gh u of
                    None \<Rightarrow> geo_index s
                  | Some g \<Rightarrow> (let (b, idx) = index_getitem (geo_index s) g
                              in idx(g \<mapsto> removeAll uid b)))"
  define u2 where "u2 = (add_location u lat lon (Some (case ts of None \<Rightarrow> clock | Some t \<Rightarrow> t)) clock)\<lparr>last_gh := Some gh\<rparr>"
  obtain b2 idx2 where g2: "index_getitem idx1 gh = (b2, idx2)" by (cases "index_getitem idx1 gh")
  have s': "s' = \<lparr>users = (users s)(uid \<mapsto> u2), geo_index = idx2(gh \<mapsto> List.insert uid b2)\<rparr>"
    using assms gh g2
    by (simp add: upsert_user_def bind_e_def Let_def u_def [symmetric] idx1_def [symmetric] u2_def)
  have old: "(\<exists>u'. users s uid = Some u' \<and> last_gh u' = Some c) \<longleftrightarrow> last_gh u = Some c" for c
    by (auto simp: u_def User_init_def split: option.splits)
  have b1: "bucket idx1 c = (if last_gh u = Some c then bucket (geo_index s) c - {uid}
                             else bucket (geo_index s) c)" for c
  proof (cases "last_gh u")
    case None
    then show ?thesis by (simp add: idx1_def)
  next
    case (Some g)
    obtain b idx where g1: "index_getitem (geo_index s) g = (b, idx)"
      by (cases "index_getitem (geo_index s) g")
    from bucket_getitem [OF g1, of c] show ?thesis
      using Some g1 by (auto simp: idx1_def bucket_upd)
  qed
  have "bucket (geo_index s') c = (if c = gh then insert uid (bucket idx1 gh) else bucket idx1 c)" for c
    using bucket_getitem [OF g2, of c] by (auto simp: s' bucket_upd)
  then have "\<forall>c. bucket (geo_index s') c =
              (if c = gh then insert uid (bucket (geo_index s) c)
               else if (\<exists>u. users s uid = Some u \<and> last_gh u = Some c)
                    then bucket (geo_index s) c - {uid} else bucket (geo_index s) c)"
    unfolding old b1 by auto
  moreover have "users s' = (users s)(uid \<mapsto> u2)" "last_gh u2 = Some gh"
    by (simp_all add: s' u2_def)
  ultimately show ?thesis by blast
qed

lemma consistent_init: "index_consistent init_state"
  by (simp add: index_consistent_def init_state_def bucket_def)

lemma consistent_upsert:
  assumes "index_consistent s" "upsert_user s uid lat lon ts clock = Inr s'"
  shows "index_consistent s'"
proof -
  from upsert_effect [OF assms(2)] obtain gh u2 where
    us: "users s' = (users s)(uid \<mapsto> u2)" and lg: "last_gh u2 = Some gh" and
    bk: "\<And>c. bucket (geo_index s') c =
              (if c = gh then insert uid (bucket (geo_index s) c)
               else if (\<exists>u. users s uid = Some u \<and> last_gh u = Some c)
                    then bucket (geo_index s) c - {uid} else bucket (geo_index s) c)"
    by blast
  have old: "a \<in> bucket (geo_index s) c \<longleftrightarrow> (\<exists>u. users s a = Some u \<and> last_gh u = Some c)" for a c
    using assms(1) by (simp add: index_consistent_def)
  show ?thesis
    unfolding index_consistent_def
  proof (intro allI)
    fix a c
    show "a \<in> bucket (geo_index s') c \<longleftrightarrow> (\<exists>u. users s' a = Some u \<and> last_gh u = Some c)"
    proof (cases "a = uid")
      case True
      then show ?thesis using old [of uid c] by (auto simp: bk us lg)
    next
      case False
      then show ?thesis using old [of a c] by (auto simp: bk us)
    qed
  qed
qed

lemma consistent_run:
  "index_consistent s \<Longrightarrow> run_upserts s calls = Inr s' \<Longrightarrow> index_consistent s'"
proof (induction calls arbitrary: s)
  case Nil
  then show ?case by simp
next
  case (Cons call calls)
  obtain uid lat lon ts clock where call: "call = (uid, lat, lon, ts, clock)"
    by (cases call)
  obtain s1 where s1: "upsert_user s uid lat lon ts clock = Inr s1"
    using upsert_returns by blast
  from Cons.prems(2) have "run_upserts s1 calls = Inr s'"
    by (simp add: call s1 bind_e_def)
  with Cons.IH [OF consistent_upsert [OF Cons.prems(1) s1]] show ?case .
qed

lemma run_returns: "\<exists>s'. run_upserts s calls = Inr s'"
proof (induction calls arbitrary: s)
  case Nil
  then show ?case by simp
next
  case (Cons call calls)
  obtain uid lat lon ts clock where call: "call = (uid, lat, lon, ts, clock)"
    by (cases call)
  obtain s1 where s1: "upsert_user s uid lat lon ts clock = Inr s1"
    using upsert_returns by blast
  from Cons.IH [of s1] show ?case by (simp add: call s1 bind_e_def)
qed

lemma ex_reach:
  "run_upserts init_state [(''carol'', 0, 0, Some 0, 0), (''bob'', 0, 0, None, 100),
       (''alice'', 0, 0, Some 100, 100)] = Inr example_state"
  by (simp add: upsert_user_def init_state_def example_state_def encode_eval GEO_PREC_def
     User_init_def add_location_def deque_append_def index_getitem_def Let_def)

text \<open>
  C2. Any finite sequence of upsert calls, run from the initial state, returns a state
  in which every known agent with \<^verbatim>\<open>last_gh = c\<close> is a member of the index's set for
  \<open>c\<close> and of no other bucket's set: the buckets that hold the agent are exactly \<open>{c}\<close>.
\<close>

theorem bucket_invariant:
  "\<exists>s. run_upserts init_state calls = Inr s \<and>
       (\<forall>a u c. users s a = Some u \<and> last_gh u = Some c \<longrightarrow>
                 {c'. a \<in> bucket (geo_index s) c'} = {c})"
proof -
  obtain s where s: "run_upserts init_state calls = Inr s"
    using run_returns by blast
  from consistent_run [OF consistent_init s] have "index_consistent s" .
  then have "\<forall>a u c. users s a = Some u \<and> last_gh u = Some c \<longrightarrow>
                 {c'. a \<in> bucket (geo_index s) c'} = {c}"
    by (auto simp: index_consistent_def)
  with s show ?thesis by blast
qed

theorem bucket_invariant_witness:
  "users example_state ''bob'' =
     Some \<lparr>user_id = ''bob'', location_histry = [(0, 0)],
           last_ts = 100, last_gh = Some ''7zzzzzzz''\<rparr> \<and>
   {c'. ''bob'' \<in> bucket (geo_index example_state) c'} = {''7zzzzzzz''}"
proof -
  have u: "users example_state ''bob'' =
     Some \<lparr>user_id = ''bob'', location_histry = [(0, 0)],
           last_ts = 100, last_gh = Some ''7zzzzzzz''\<rparr>"
    by (simp add: example_state_def)
  from bucket_invariant
    [of "[(''carol'', 0, 0, Some 0, 0), (''bob'', 0, 0, None, 100),
          (''alice'', 0, 0, Some 100, 100)]"]
  obtain s where
    s: "run_upserts init_state [(''carol'', 0, 0, Some 0, 0), (''bob'', 0, 0, None, 100),
          (''alice'', 0, 0, Some 100, 100)] = Inr s" and
    inv: "\<forall>a u c. users s a = Some u \<and> last_gh u = Some c \<longrightarrow>
                 {c'. a \<in> bucket (geo_index s) c'} = {c}"
    by blast
  from s ex_reach have se: "s = example_state" by simp
  from inv [rule_format, of "''bob''"
      "\<lparr>user_id = ''bob'', location_histry = [(0, 0)],
        last_ts = 100, last_gh = Some ''7zzzzzzz''\<rparr>" "''7zzzzzzz''"] u
  have "{c'. ''bob'' \<in> bucket (geo_index example_state) c'} = {''7zzzzzzz''}"
    by (simp add: se)
  with u show ?thesis by simp
qed

section \<open>The filter cascade\<close>




























section \<open>The proximity query\<close>

lemma collect_state: "snd (collect_candidates s hs acc) = s"
  by (induction hs arbitrary: acc) (auto simp: index_get_def split: option.splits)

lemma collect_state_eq: "collect_candidates s hs acc = (cs, s') \<Longrightarrow> s' = s"
  using collect_state [of s hs acc] by simp

text \<open>
  C10. The query leaves the shared state as it found it: the state after
  \<^verbatim>\<open>check_proximity_geohash\<close> is the state before, users and index alike; in
  particular the index has no new key.
\<close>

theorem query_read_only: "snd (check_proximity_geohash s uid threshold time_window now) = s"
  by (auto simp: check_proximity_geohash_def Let_def
           split: option.splits sum.splits prod.splits dest: collect_state_eq)

lemma near_true:
  "near_with_stages lat1 lon1 lat2 lon2 thr rr = Inr True \<Longrightarrow>
     \<exists>d. haversine lat1 lon1 lat2 lon2 = Inr d \<and> d \<le> thr"
  by (auto simp: near_with_stages_def bind_e_def split: if_splits sum.splits)

lemma scan_hits:
  "scan_candidates us uid lat1 lon1 thr tw now cands hits0 = Inr hits \<Longrightarrow>
   (vid, d) \<in> set hits \<Longrightarrow>
     (vid, d) \<in> set hits0 \<or>
     (vid \<noteq> uid \<and> (\<exists>v lat2 lon2. us vid = Some v \<and> latest_location v = Some (lat2, lon2) \<and>
         \<not> now - last_ts v > tw \<and> haversine lat1 lon1 lat2 lon2 = Inr d \<and> d \<le> thr))"
proof (induction cands arbitrary: hits0)
  case Nil
  then show ?case by simp
next
  case (Cons c cands)
  show ?case
  proof (cases "c = uid \<or> us c = None \<or> latest_location (the (us c)) = None \<or>
                now - last_ts (the (us c)) > tw")
    case True
    then have "scan_candidates us uid lat1 lon1 thr tw now cands hits0 = Inr hits"
      using Cons.prems(1) by (auto split: option.splits if_splits)
    from Cons.IH [OF this Cons.prems(2)] show ?thesis .
  next
    case False
    then obtain v lat2 lon2 where v: "c \<noteq> uid" "us c = Some v"
      "latest_location v = Some (lat2, lon2)" "\<not> now - last_ts v > tw"
      by auto
    show ?thesis
    proof (cases "near_with_stages lat1 lon1 lat2 lon2 thr RELAX_RATIO")
      case (Inl e)
      then show ?thesis using Cons.prems(1) v by simp
    next
      case (Inr near)
      show ?thesis
      proof (cases near)
        case False
        then have "scan_candidates us uid lat1 lon1 thr tw now cands hits0 = Inr hits"
          using Cons.prems(1) v Inr by simp
        from Cons.IH [OF this Cons.prems(2)] show ?thesis .
      next
        case True
        with Inr have "near_with_stages lat1 lon1 lat2 lon2 thr RELAX_RATIO = Inr True" by simp
        from near_true [OF this] obtain d' where
          d': "haversine lat1 lon1 lat2 lon2 = Inr d'" "d' \<le> thr"
          by blast
        then have "scan_candidates us uid lat1 lon1 thr tw now cands (hits0 @ [(c, d')]) = Inr hits"
          using Cons.prems(1) v Inr True by simp
        from Cons.IH [OF this Cons.prems(2)] show ?thesis
          using v d' by auto
      qed
    qed
  qed
qed

lemma check_hit:
  assumes "fst (check_proximity_geohash s uid thr tw now) = Inr hits" "(vid, d) \<in> set hits"
  shows "\<exists>u lat1 lon1 v lat2 lon2. vid \<noteq> uid \<and>
           users s uid = Some u \<and> latest_location u = Some (lat1, lon1) \<and>
           users s vid = Some v \<and> latest_location v = Some (lat2, lon2) \<and>
           \<not> now - last_ts v > tw \<and> haversine lat1 lon1 lat2 lon2 = Inr d \<and> d \<le> thr"
proof -
  from assms(1) obtain u where u: "users s uid = Some u"
    by (cases "users s uid") (use assms in \<open>auto simp: check_proximity_geohash_def\<close>)
  from assms u obtain lat1 lon1 where l: "latest_location u = Some (lat1, lon1)"
    by (cases "latest_location u") (auto simp: check_proximity_geohash_def)
  from assms(1) u l obtain cands s' where
    "scan_candidates (users s') uid lat1 lon1 thr tw now cands [] = Inr hits" "s' = s"
    by (auto simp: check_proximity_geohash_def Let_def
             split: option.splits sum.splits prod.splits if_splits dest: collect_state_eq)
  then have "scan_candidates (users s) uid lat1 lon1 thr tw now cands [] = Inr hits" by simp
  from scan_hits [OF this assms(2)] show ?thesis using u l by auto
qed

lemmas query_eval =
  check_proximity_geohash_def latest_location_def neighbors_def neighbor.simps
  border_map_def direction_map_def getitem_def BASE32_def bind_e_def Let_def
  index_get_def List.union_def List.insert_def
  near_with_stages_def bbox_pass_def equirectangular_m_def haversine_def py_sqrt_def
  radians_def atan2_def R_EARTH_def RELAX_RATIO_def

lemma ex_check:
  "fst (check_proximity_geohash example_state ''alice'' 10 60 100) = Inr [(''bob'', 0)]"
  by (simp add: example_state_def query_eval)

text \<open>
  C4. Every hit \<open>(vid, d)\<close> of the query carries the haversine distance between the
  latest location of the querying user and the latest location of \<open>vid\<close>, and that
  distance is at most the threshold.
\<close>

theorem hits_exact_distance:
  "fst (check_proximity_geohash s uid threshold time_window now) = Inr hits \<Longrightarrow>
   (vid, d) \<in> set hits \<Longrightarrow>
     \<exists>u lat1 lon1 v lat2 lon2.
        users s uid = Some u \<and> latest_location u = Some (lat1, lon1) \<and>
        users s vid = Some v \<and> latest_location v = Some (lat2, lon2) \<and>
        haversine lat1 lon1 lat2 lon2 = Inr d \<and> d \<le> threshold"
  using check_hit [of s uid threshold time_window now hits vid d] by blast

theorem hits_exact_distance_witness:
  "fst (check_proximity_geohash example_state ''alice'' 10 60 100) = Inr [(''bob'', 0)] \<and>
   haversine 0 0 0 0 = Inr 0 \<and> (0::real) \<le> 10"
proof -
  have m: "(''bob'', 0::real) \<in> set [(''bob'', 0)]" by simp
  from hits_exact_distance [OF ex_check m]
  have "haversine 0 0 0 0 = Inr 0 \<and> (0::real) \<le> 10"
    by (auto simp: example_state_def latest_location_def)
  with ex_check show ?thesis by simp
qed

text \<open>
  C5. A query for a user id that is not in \<^verbatim>\<open>users\<close>, or whose location history is
  empty, returns the empty list and does not raise.
\<close>

theorem unknown_agent_empty:
  "users s uid = None \<or> (\<exists>u. users s uid = Some u \<and> location_histry u = []) \<Longrightarrow>
     fst (check_proximity_geohash s uid threshold time_window now) = Inr []"
  by (auto simp: check_proximity_geohash_def latest_location_def)

theorem unknown_agent_empty_witness:
  "users example_state ''dave'' = None \<and>
   fst (check_proximity_geohash example_state ''dave'' 10 60 100) = Inr []"
proof -
  have h: "users example_state ''dave'' = None" by (simp add: example_state_def)
  then have "users example_state ''dave'' = None \<or>
    (\<exists>u. users example_state ''dave'' = Some u \<and> location_histry u = [])" by simp
  from unknown_agent_empty [OF this] h show ?thesis by simp
qed

text \<open>C6. No hit of a query names the querying user itself.\<close>

theorem self_excluded:
  "fst (check_proximity_geohash s uid threshold time_window now) = Inr hits \<Longrightarrow>
     uid \<notin> fst ` set hits"
  using check_hit [of s uid threshold time_window now hits uid] by auto

theorem self_excluded_witness:
  "fst (check_proximity_geohash example_state ''alice'' 10 60 100) = Inr [(''bob'', 0)] \<and>
   ''alice'' \<notin> fst ` set [(''bob'', 0::real)]"
  using ex_check self_excluded [OF ex_check] by simp

text \<open>
  C7. A user whose last update is older than the time window at query time
  (\<open>now - last_ts > time_window\<close>) is in no hit, whatever its distance.
\<close>

theorem stale_excluded:
  "fst (check_proximity_geohash s uid threshold time_window now) = Inr hits \<Longrightarrow>
   users s vid = Some v \<Longrightarrow> now - last_ts v > time_window \<Longrightarrow>
     vid \<notin> fst ` set hits"
  using check_hit [of s uid threshold time_window now hits vid] by auto

theorem stale_excluded_witness:
  "users example_state ''carol'' =
     Some \<lparr>user_id = ''carol'', location_histry = [(0, 0)],
           last_ts = 0, last_gh = Some ''7zzzzzzz''\<rparr> \<and>
   (100::real) - 0 > 60 \<and>
   ''carol'' \<notin> fst ` set [(''bob'', 0::real)]"
proof -
  have u: "users example_state ''carol'' =
     Some \<lparr>user_id = ''carol'', location_histry = [(0, 0)],
           last_ts = 0, last_gh = Some ''7zzzzzzz''\<rparr>"
    by (simp add: example_state_def)
  have t: "100 - last_ts \<lparr>user_id = ''carol'', location_histry = [(0, 0)],
           last_ts = 0, last_gh = Some ''7zzzzzzz''\<rparr> > 60"
    by simp
  from stale_excluded [OF ex_check u t] u show ?thesis by simp
qed

end
